theory Spec2Isabelle
  imports Complex_Main "HOL-Library.Multiset" "HOL-Library.Char_ord" "HOL-Library.List_Lexorder"
begin

section \<open>Data model\<close>

text \<open>
  A draw is the dictionary built by \<^verbatim>\<open>parse_html_data\<close>:
  \<^verbatim>\<open>{"date": date_str, "numbers": white_balls, "year": year}\<close>.
  The date is the string \<^verbatim>\<open>%Y-%m-%d\<close>, the numbers are a Python list of
  (unbounded) integers in page order, the year is an integer.
\<close>

record draw =
  date :: string
  numbers :: "int list"
  year :: int

text \<open>
  The exceptions that the built-ins called by the analysers can raise:
  \<^verbatim>\<open>max\<close> and \<^verbatim>\<open>min\<close> of an empty sequence and
  \<^verbatim>\<open>itertools.combinations\<close> with a negative size raise ValueError, a true
  division by zero raises ZeroDivisionError. A function that can raise returns
  \<open>error + 'a\<close>, the exception on the left.
\<close>

datatype error = ValueError | ZeroDivisionError

definition on_ok :: "error + 'a \<Rightarrow> ('a \<Rightarrow> error + 'b) \<Rightarrow> error + 'b" where
  "on_ok m f = (case m of Inl e \<Rightarrow> Inl e | Inr x \<Rightarrow> f x)"

subsection \<open>Built-ins\<close>

text \<open>
  Python's \<^verbatim>\<open>float\<close> results are modelled by exact rationals: every quotient
  below is the quotient of two integers, and the values the claims name (such as 3.5)
  are exact in binary floating point. A column of a data frame can also hold the
  values that numpy gives a division by zero, so the float of a column is a rational,
  an infinity or NaN.
\<close>

datatype pyfloat = NegInf | Finite rat | PosInf | NaN

text \<open>
  A true division of two finite floats as numpy does it on a column: it does not raise;
  a division by (positive) zero gives an infinity with the sign of the numerator, and
  NaN for \<open>0 / 0\<close>.
\<close>

definition float_div :: "rat \<Rightarrow> rat \<Rightarrow> pyfloat" where
  "float_div a b =
     (if b = 0 then (if 0 < a then PosInf else if a < 0 then NegInf else NaN)
      else Finite (a / b))"

fun float_times :: "pyfloat \<Rightarrow> rat \<Rightarrow> pyfloat" where
  "float_times (Finite a) c = Finite (a * c)"
| "float_times PosInf c = (if 0 < c then PosInf else if c < 0 then NegInf else NaN)"
| "float_times NegInf c = (if 0 < c then NegInf else if c < 0 then PosInf else NaN)"
| "float_times NaN c = NaN"

text \<open>
  The order in which a sort compares floats: minus infinity, the finite values, plus
  infinity. pandas takes the NaN rows out before it sorts; NaN is put above everything
  here only to make the order total.
\<close>

fun float_rank :: "pyfloat \<Rightarrow> nat" where
  "float_rank NegInf = 0"
| "float_rank (Finite a) = 1"
| "float_rank PosInf = 2"
| "float_rank NaN = 3"

fun float_le :: "pyfloat \<Rightarrow> pyfloat \<Rightarrow> bool" where
  "float_le (Finite a) (Finite b) = (a \<le> b)"
| "float_le x y = (float_rank x \<le> float_rank y)"

instantiation pyfloat :: linorder
begin

definition less_eq_pyfloat :: "pyfloat \<Rightarrow> pyfloat \<Rightarrow> bool" where
  "less_eq_pyfloat x y = float_le x y"

definition less_pyfloat :: "pyfloat \<Rightarrow> pyfloat \<Rightarrow> bool" where
  "less_pyfloat x y = (float_le x y \<and> \<not> float_le y x)"

instance
proof
  fix x y z :: pyfloat
  show "(x < y) = (x \<le> y \<and> \<not> y \<le> x)"
    by (simp add: less_pyfloat_def less_eq_pyfloat_def)
  show "x \<le> x"
    by (cases x) (simp_all add: less_eq_pyfloat_def)
  show "x \<le> y \<Longrightarrow> y \<le> z \<Longrightarrow> x \<le> z"
    by (cases x; cases y; cases z) (simp_all add: less_eq_pyfloat_def)
  show "x \<le> y \<Longrightarrow> y \<le> x \<Longrightarrow> x = y"
    by (cases x; cases y) (simp_all add: less_eq_pyfloat_def)
  show "x \<le> y \<or> y \<le> x"
    by (cases x; cases y) (auto simp: less_eq_pyfloat_def)
qed

end

fun py_min :: "int list \<Rightarrow> error + int" where
  "py_min [] = Inl ValueError"
| "py_min (x # xs) = Inr (fold min xs x)"

fun py_max :: "int list \<Rightarrow> error + int" where
  "py_max [] = Inl ValueError"
| "py_max (x # xs) = Inr (fold max xs x)"

text \<open>\<^verbatim>\<open>sum(xs) / len(xs)\<close>\<close>

definition py_mean :: "int list \<Rightarrow> error + rat" where
  "py_mean xs =
     (if length xs = 0 then Inl ZeroDivisionError
      else Inr (rat_of_int (sum_list xs) / rat_of_int (int (length xs))))"

text \<open>\<^verbatim>\<open>str(i)\<close> of an integer, as used by the f-strings and by \<^verbatim>\<open>str(combo)\<close>.\<close>

definition digit_char :: "nat \<Rightarrow> char" where
  "digit_char n = char_of (48 + n)"

fun str_nat :: "nat \<Rightarrow> string" where
  "str_nat n = (if n < 10 then [digit_char n] else str_nat (n div 10) @ [digit_char (n mod 10)])"

declare str_nat.simps [simp del]

definition str_int :: "int \<Rightarrow> string" where
  "str_int i = (if i < 0 then CHR ''-'' # str_nat (nat (- i)) else str_nat (nat i))"

text \<open>\<^verbatim>\<open>", ".join(ss)\<close>\<close>

fun join_comma :: "string list \<Rightarrow> string" where
  "join_comma [] = []"
| "join_comma [s] = s"
| "join_comma (s # t # ss) = s @ '', '' @ join_comma (t # ss)"

text \<open>\<^verbatim>\<open>str(t)\<close> of a tuple of integers: \<^verbatim>\<open>()\<close>, \<^verbatim>\<open>(3,)\<close>, \<^verbatim>\<open>(3, 7)\<close>.\<close>

definition str_tuple :: "int list \<Rightarrow> string" where
  "str_tuple t =
     (case t of
        [] \<Rightarrow> ''()''
      | [x] \<Rightarrow> ''('' @ str_int x @ '',)''
      | _ \<Rightarrow> ''('' @ join_comma (map str_int t) @ '')'')"

text \<open>
  \<^verbatim>\<open>itertools.combinations(xs, r)\<close>: the subsequences of length \<open>r\<close> of
  \<open>xs\<close>, in lexicographic order of their positions; one empty tuple for \<open>r = 0\<close>,
  nothing for \<open>r\<close> above the length, ValueError for a negative \<open>r\<close>.
\<close>

fun combinations :: "'a list \<Rightarrow> nat \<Rightarrow> 'a list list" where
  "combinations xs 0 = [[]]"
| "combinations [] (Suc r) = []"
| "combinations (x # xs) (Suc r) = map ((#) x) (combinations xs r) @ combinations xs (Suc r)"

definition itertools_combinations :: "'a list \<Rightarrow> int \<Rightarrow> error + 'a list list" where
  "itertools_combinations xs r =
     (if r < 0 then Inl ValueError else Inr (combinations xs (nat r)))"

subsection \<open>Dictionaries that keep insertion order\<close>

text \<open>
  A Python \<^verbatim>\<open>dict\<close> (and so a \<^verbatim>\<open>Counter\<close> and a \<^verbatim>\<open>defaultdict\<close>)
  iterates in the order in which its keys were first inserted. The row order of the
  data frames built from a counter depends on it, so a dictionary is an association
  list with distinct keys, a new key going to the end.

  \<open>setdefault_apply k v f d\<close> is the common shape of \<^verbatim>\<open>d[k] += 1\<close> on a counter
  and of \<^verbatim>\<open>d[k].append(x)\<close> on a \<^verbatim>\<open>defaultdict(list)\<close>: a present key has
  \<open>f\<close> applied to its value in place, an absent key is appended with the value \<open>v\<close>
  (which is \<open>f\<close> of the default).
\<close>

fun setdefault_apply :: "'k \<Rightarrow> 'v \<Rightarrow> ('v \<Rightarrow> 'v) \<Rightarrow> ('k \<times> 'v) list \<Rightarrow> ('k \<times> 'v) list" where
  "setdefault_apply k v f [] = [(k, v)]"
| "setdefault_apply k v f ((k', v') # d) =
     (if k' = k then (k', f v') # d else (k', v') # setdefault_apply k v f d)"

text \<open>\<^verbatim>\<open>counter[k] += 1\<close>\<close>

definition counter_incr :: "'k \<Rightarrow> ('k \<times> int) list \<Rightarrow> ('k \<times> int) list" where
  "counter_incr k cnt = setdefault_apply k 1 (\<lambda>c. c + 1) cnt"

text \<open>\<^verbatim>\<open>Counter(xs)\<close>: the elements of \<open>xs\<close> are counted from left to right.\<close>

definition Counter :: "'k list \<Rightarrow> ('k \<times> int) list" where
  "Counter xs = fold counter_incr xs []"

subsection \<open>Data frames\<close>

text \<open>
  A pandas data frame is the list of its rows, in index order.

  \<^verbatim>\<open>df.sort_values(by=col, ascending=flag)\<close> is called with one key column and no
  \<^verbatim>\<open>kind\<close>, so pandas sorts with numpy's default \<^verbatim>\<open>argsort\<close>
  (\<^verbatim>\<open>kind='quicksort'\<close>), which is not stable: where keys are equal, the order of
  the rows is whatever the algorithm in use leaves (it differs between numpy versions
  and processors). That algorithm is not part of the repository. What is known of it is
  that the indices it returns depend on the key column alone and sort it; so it is a
  parameter \<open>tie\<close> of the model: \<open>tie ks i\<close> is the rank that the sort gives
  position \<open>i\<close> of the key column \<open>ks\<close> among the positions of equal key. Every
  function \<open>tie\<close> gives a sort, and every sort that looks at the keys only is given by
  some \<open>tie\<close>; a stable sort is \<open>tie ks i = i\<close>.
\<close>

definition argsort :: "('k list \<Rightarrow> nat \<Rightarrow> nat) \<Rightarrow> ('k::linorder) list \<Rightarrow> nat list" where
  "argsort tie ks = sort_key ((!) ks) (sort_key (tie ks) [0 ..< length ks])"

text \<open>
  pandas' \<^verbatim>\<open>nargsort\<close>: an ascending sort takes the rows at the indices that the
  argsort of the key column returns; a descending sort reverses the column, argsorts it
  ascending and reverses the outcome. All indices are below the length of the frame.
\<close>

definition sort_values ::
  "('k list \<Rightarrow> nat \<Rightarrow> nat) \<Rightarrow> ('r \<Rightarrow> 'k::linorder) \<Rightarrow> bool \<Rightarrow> 'r list \<Rightarrow> 'r list" where
  "sort_values tie col ascending df =
     (if ascending then map ((!) df) (argsort tie (map col df))
      else rev (map ((!) (rev df)) (argsort tie (rev (map col df)))))"

text \<open>The frame of \<^verbatim>\<open>analyze_combinations\<close>: columns "combination" and "frequency".\<close>

record combo_row =
  combination :: string
  frequency :: int

text \<open>
  The frame of \<^verbatim>\<open>analyze_frequency\<close>: columns "number" and "frequency". From here
  on \<open>frequency\<close> is the column of this frame and \<open>combo_row.frequency\<close> the one of
  the combination frame.
\<close>

record freq_row =
  number :: int
  frequency :: int

text \<open>\<^verbatim>\<open>{"main": main_df}\<close>\<close>

record freq_result =
  main :: "freq_row list"

section \<open>Frequency Analyzer\<close>

text \<open>
  \<^verbatim>\<open>
  def analyze_frequency(draws):
      main_numbers = []
      for draw in draws:
          main_numbers.extend(draw["numbers"])
      main_freq = Counter(main_numbers)
      main_df = pd.DataFrame(
          {"number": list(main_freq.keys()), "frequency": list(main_freq.values())}
      ).sort_values(by="frequency", ascending=False)
      return {"main": main_df}
  \<close>
\<close>

definition analyze_frequency :: "(int list \<Rightarrow> nat \<Rightarrow> nat) \<Rightarrow> draw list \<Rightarrow> freq_result" where
  "analyze_frequency tie draws =
     (let main_numbers = fold (\<lambda>draw main_numbers. main_numbers @ numbers draw) draws [];
          main_freq = Counter main_numbers;
          main_df = sort_values tie frequency False
                      (map (\<lambda>(k, c). \<lparr>number = k, frequency = c\<rparr>) main_freq)
      in \<lparr>main = main_df\<rparr>)"

section \<open>Combination Analyzer\<close>

text \<open>
  \<^verbatim>\<open>
  def analyze_combinations(draws, combination_size=2):
      combinations_count = Counter()
      for draw in draws:
          numbers = draw["numbers"]
          for combo in itertools.combinations(sorted(numbers), combination_size):
              combinations_count[combo] += 1
      combo_df = pd.DataFrame(
          {"combination": [str(combo) for combo in combinations_count.keys()],
           "frequency": list(combinations_count.values())}
      ).sort_values(by="frequency", ascending=False)
      return combo_df
  \<close>
  \<open>count_combinations\<close> is the loop over the draws, with the counter as its state;
  the call of \<^verbatim>\<open>itertools.combinations\<close> raises before anything is counted for
  that draw, and is never reached when there is no draw.
\<close>

fun count_combinations ::
  "int \<Rightarrow> draw list \<Rightarrow> (int list \<times> int) list \<Rightarrow> error + (int list \<times> int) list" where
  "count_combinations combination_size [] combinations_count = Inr combinations_count"
| "count_combinations combination_size (draw # draws) combinations_count =
     on_ok (itertools_combinations (sort (numbers draw)) combination_size)
       (\<lambda>combos. count_combinations combination_size draws
                   (fold counter_incr combos combinations_count))"

definition combinations_count :: "draw list \<Rightarrow> int \<Rightarrow> error + (int list \<times> int) list" where
  "combinations_count draws combination_size = count_combinations combination_size draws []"

definition analyze_combinations ::
  "(int list \<Rightarrow> nat \<Rightarrow> nat) \<Rightarrow> draw list \<Rightarrow> int \<Rightarrow> error + combo_row list" where
  "analyze_combinations tie draws combination_size =
     on_ok (combinations_count draws combination_size)
       (\<lambda>cnt. Inr (sort_values tie combo_row.frequency False
                    (map (\<lambda>(combo, c). \<lparr>combination = str_tuple combo, frequency = c\<rparr>) cnt)))"

section \<open>Temporal Partitioner\<close>

text \<open>
  \<^verbatim>\<open>
  def analyze_by_year(draws):
      draws_by_year = defaultdict(list)
      for draw in draws:
          year = draw["year"]
          draws_by_year[year].append(draw)
      yearly_analysis = {}
      for year, year_draws in draws_by_year.items():
          yearly_analysis[year] = analyze_frequency(year_draws)["main"]
      return yearly_analysis
  \<close>
  The keys of \<^verbatim>\<open>draws_by_year\<close> are distinct, so the second loop adds one entry
  per group, in the same order.
\<close>

definition draws_by_year :: "draw list \<Rightarrow> (int \<times> draw list) list" where
  "draws_by_year draws =
     fold (\<lambda>draw d. setdefault_apply (year draw) [draw] (\<lambda>l. l @ [draw]) d) draws []"

definition analyze_by_year ::
  "(int list \<Rightarrow> nat \<Rightarrow> nat) \<Rightarrow> draw list \<Rightarrow> (int \<times> freq_row list) list" where
  "analyze_by_year tie draws =
     map (\<lambda>(y, year_draws). (y, main (analyze_frequency tie year_draws))) (draws_by_year draws)"

section \<open>Distribution Analyzer\<close>

text \<open>
  The per-draw quantities of \<^verbatim>\<open>calculate_additional_stats\<close>, one definition per
  list comprehension:
  \<^verbatim>\<open>
  odd_counts = [sum(1 for num in draw["numbers"] if num % 2 == 1) for draw in draws]
  high_counts = [sum(1 for num in draw["numbers"] if num > 25) for draw in draws]
  for draw in draws:
      sorted_nums = sorted(draw["numbers"])
      consecutive = 0
      for i in range(len(sorted_nums) - 1):
          if sorted_nums[i + 1] - sorted_nums[i] == 1:
              consecutive += 1
      consecutive_counts.append(consecutive)
  ranges = [max(draw["numbers"]) - min(draw["numbers"]) for draw in draws]
  \<close>
  Python's \<^verbatim>\<open>%\<close> with a positive divisor is \<open>mod\<close> on \<open>int\<close>. The indices
  \<open>i\<close> and \<open>i + 1\<close> of the inner loop are below the length of the sorted list.
\<close>

definition odd_count :: "draw \<Rightarrow> int" where
  "odd_count draw = sum_list (map (\<lambda>num. 1) (filter (\<lambda>num. num mod 2 = 1) (numbers draw)))"

definition high_count :: "draw \<Rightarrow> int" where
  "high_count draw = sum_list (map (\<lambda>num. 1) (filter (\<lambda>num. num > 25) (numbers draw)))"

definition consecutive_pairs :: "draw \<Rightarrow> int" where
  "consecutive_pairs draw =
     (let sorted_nums = sort (numbers draw)
      in fold (\<lambda>i consecutive.
                 if sorted_nums ! (i + 1) - sorted_nums ! i = 1 then consecutive + 1
                 else consecutive)
           [0 ..< length sorted_nums - 1] 0)"

definition draw_range :: "draw \<Rightarrow> error + int" where
  "draw_range draw =
     on_ok (py_max (numbers draw)) (\<lambda>mx. on_ok (py_min (numbers draw)) (\<lambda>mn. Inr (mx - mn)))"

fun ranges_of :: "draw list \<Rightarrow> error + int list" where
  "ranges_of [] = Inr []"
| "ranges_of (draw # draws) =
     on_ok (draw_range draw) (\<lambda>r. on_ok (ranges_of draws) (\<lambda>rs. Inr (r # rs)))"

text \<open>
  The bucket labels, and a distribution: the counter of the per-draw values, its items
  sorted (the keys of a counter are distinct, so the sort is by key), each key replaced
  by its label.
  \<^verbatim>\<open>
  {f"{odd} odd, {7-odd} even": count for odd, count in sorted(odd_distribution.items())}
  {f"{high} high, {7-high} low": count for high, count in sorted(high_distribution.items())}
  {f"{pairs} consecutive pairs": count for pairs, count in sorted(...)}
  \<close>
\<close>

definition odd_even_label :: "int \<Rightarrow> string" where
  "odd_even_label odd' = str_int odd' @ '' odd, '' @ str_int (7 - odd') @ '' even''"

definition high_low_label :: "int \<Rightarrow> string" where
  "high_low_label high = str_int high @ '' high, '' @ str_int (7 - high) @ '' low''"

definition consecutive_label :: "int \<Rightarrow> string" where
  "consecutive_label pairs = str_int pairs @ '' consecutive pairs''"

definition distribution :: "(int \<Rightarrow> string) \<Rightarrow> int list \<Rightarrow> (string \<times> int) list" where
  "distribution label counts =
     map (\<lambda>(v, count). (label v, count)) (sort_key fst (Counter counts))"

record stats =
  average_sum :: rat
  min_sum :: int
  max_sum :: int
  odd_even_distribution :: "(string \<times> int) list"
  avg_odd_numbers :: rat
  high_low_distribution :: "(string \<times> int) list"
  avg_high_numbers :: rat
  consecutive_pairs_distribution :: "(string \<times> int) list"
  avg_consecutive_pairs :: rat
  avg_range :: rat
  min_range :: int
  max_range :: int

text \<open>
  \<^verbatim>\<open>calculate_additional_stats\<close> (lines 120 to 168). The result is the dictionary
  \<^verbatim>\<open>stats\<close>: \<open>None\<close> is the empty dictionary returned for no draws, \<open>Some\<close> a
  dictionary with all twelve keys. The steps are in the order of the source, so the
  first exception raised is the one returned.
\<close>

definition calculate_additional_stats :: "draw list \<Rightarrow> error + stats option" where
  "calculate_additional_stats draws =
     (if draws = [] then Inr None
      else
        let sums' = map (\<lambda>draw. sum_list (numbers draw)) draws in
        on_ok (py_mean sums') (\<lambda>average_sum'.
        on_ok (py_min sums') (\<lambda>min_sum'.
        on_ok (py_max sums') (\<lambda>max_sum'.
        let odd_counts = map odd_count draws in
        on_ok (py_mean odd_counts) (\<lambda>avg_odd_numbers'.
        let high_counts = map high_count draws in
        on_ok (py_mean high_counts) (\<lambda>avg_high_numbers'.
        let consecutive_counts = map consecutive_pairs draws in
        on_ok (py_mean consecutive_counts) (\<lambda>avg_consecutive_pairs'.
        on_ok (ranges_of draws) (\<lambda>ranges.
        on_ok (py_mean ranges) (\<lambda>avg_range'.
        on_ok (py_min ranges) (\<lambda>min_range'.
        on_ok (py_max ranges) (\<lambda>max_range'.
        Inr (Some \<lparr>average_sum = average_sum',
                   min_sum = min_sum',
                   max_sum = max_sum',
                   odd_even_distribution = distribution odd_even_label odd_counts,
                   avg_odd_numbers = avg_odd_numbers',
                   high_low_distribution = distribution high_low_label high_counts,
                   avg_high_numbers = avg_high_numbers',
                   consecutive_pairs_distribution =
                     distribution consecutive_label consecutive_counts,
                   avg_consecutive_pairs = avg_consecutive_pairs',
                   avg_range = avg_range',
                   min_range = min_range',
                   max_range = max_range'\<rparr>))))))))))))"

section \<open>Deviation Scorer\<close>

text \<open>
  \<^verbatim>\<open>
  def find_hot_cold_numbers(freq_df, total_draws, period="all time"):
      expected_freq = total_draws * 7 / 50
      freq_df = freq_df.copy()
      freq_df["expected"] = expected_freq
      freq_df["deviation"] = (
          (freq_df["frequency"] - freq_df["expected"]) / freq_df["expected"] * 100
      )
      hot_numbers = freq_df.sort_values(by="deviation", ascending=False).head(10)
      cold_numbers = freq_df.sort_values(by="deviation", ascending=True).head(10)
      return {"period": period, "hot": hot_numbers, "cold": cold_numbers}
  \<close>
  The frame gets two more columns; its rows stay those of the frame passed in. The
  column arithmetic does not raise: with \<^verbatim>\<open>total_draws = 0\<close> the deviations are
  infinities and NaN. pandas' sort takes the rows with a NaN key out, sorts the others
  and puts the NaN rows last (\<^verbatim>\<open>na_position='last'\<close>), in both directions.
\<close>

record dev_row = freq_row +
  expected :: rat
  deviation :: pyfloat

record hot_cold =
  period :: string
  hot :: "dev_row list"
  cold :: "dev_row list"

definition with_deviation :: "rat \<Rightarrow> freq_row \<Rightarrow> dev_row" where
  "with_deviation expected_freq r =
     \<lparr>number = number r, frequency = frequency r, expected = expected_freq,
      deviation =
        float_times (float_div (rat_of_int (frequency r) - expected_freq) expected_freq) 100\<rparr>"

definition sort_values_float ::
  "(pyfloat list \<Rightarrow> nat \<Rightarrow> nat) \<Rightarrow> ('r \<Rightarrow> pyfloat) \<Rightarrow> bool \<Rightarrow> 'r list \<Rightarrow> 'r list" where
  "sort_values_float tie col ascending df =
     sort_values tie col ascending (filter (\<lambda>r. col r \<noteq> NaN) df)
       @ filter (\<lambda>r. col r = NaN) df"

definition find_hot_cold_numbers ::
  "(pyfloat list \<Rightarrow> nat \<Rightarrow> nat) \<Rightarrow> freq_row list \<Rightarrow> int \<Rightarrow> string \<Rightarrow> hot_cold" where
  "find_hot_cold_numbers tie freq_df total_draws period' =
     (let expected_freq = rat_of_int (total_draws * 7) / 50;
          freq_df' = map (with_deviation expected_freq) freq_df;
          hot_numbers = take 10 (sort_values_float tie deviation False freq_df');
          cold_numbers = take 10 (sort_values_float tie deviation True freq_df')
      in \<lparr>period = period', hot = hot_numbers, cold = cold_numbers\<rparr>)"

section \<open>Gap Tracker\<close>

text \<open>
  \<^verbatim>\<open>
  def find_patterns(draws):
      patterns = {}
      number_gaps = {}
      for num in range(1, 51):
          last_seen = None
          gaps = []
          for i, draw in enumerate(sorted(draws, key=lambda x: x["date"])):
              if num in draw["numbers"]:
                  if last_seen is not None:
                      gaps.append(i - last_seen)
                  last_seen = i
          if gaps:
              number_gaps[num] = {
                  "avg_gap": sum(gaps) / len(gaps),
                  "max_gap": max(gaps),
                  "current_gap": (
                      len(draws) - last_seen if last_seen is not None else None
                  ),
              }
      patterns["number_gaps"] = number_gaps
      return patterns
  \<close>
  \<open>scan_gaps\<close> is the inner loop, with \<open>last_seen\<close> and \<open>gaps\<close> as its state;
  \<open>number_gaps_loop\<close> is the outer loop, with the dictionary as its state. The
  entry of a number is the dictionary literal of the source, with its three keys in
  their order; its values are a float, an integer, and an integer or \<^verbatim>\<open>None\<close>. Python's
  \<^verbatim>\<open>sorted\<close> is stable and compares the date strings character by character.
\<close>

datatype pyval = PyFloat rat | PyInt int | PyNone

type_synonym gap_record = "(string \<times> pyval) list"

record patterns =
  number_gaps :: "(int \<times> gap_record) list"

fun scan_gaps :: "int \<Rightarrow> (nat \<times> draw) list \<Rightarrow> nat option \<Rightarrow> int list \<Rightarrow> nat option \<times> int list" where
  "scan_gaps num [] last_seen gaps = (last_seen, gaps)"
| "scan_gaps num ((i, draw) # rest) last_seen gaps =
     (if num \<in> set (numbers draw)
      then scan_gaps num rest (Some i)
             (case last_seen of None \<Rightarrow> gaps | Some l \<Rightarrow> gaps @ [int i - int l])
      else scan_gaps num rest last_seen gaps)"

text \<open>\<^verbatim>\<open>d[k] = v\<close>\<close>

definition dict_set :: "'k \<Rightarrow> 'v \<Rightarrow> ('k \<times> 'v) list \<Rightarrow> ('k \<times> 'v) list" where
  "dict_set k v d = setdefault_apply k v (\<lambda>_. v) d"

text \<open>The body of the loop over \<open>num\<close>: the entry for \<open>num\<close>, if it gets one.\<close>

definition gap_record_of :: "draw list \<Rightarrow> int \<Rightarrow> error + gap_record option" where
  "gap_record_of draws num =
     (case scan_gaps num (enumerate 0 (sort_key date draws)) None [] of
        (last_seen, gaps) \<Rightarrow>
          if gaps \<noteq> [] then
            on_ok (py_mean gaps) (\<lambda>avg.
            on_ok (py_max gaps) (\<lambda>mx.
              Inr (Some [(''avg_gap'', PyFloat avg),
                         (''max_gap'', PyInt mx),
                         (''current_gap'',
                            (case last_seen of
                               None \<Rightarrow> PyNone
                             | Some l \<Rightarrow> PyInt (int (length draws) - int l)))])))
          else Inr None)"

fun number_gaps_loop ::
  "draw list \<Rightarrow> int list \<Rightarrow> (int \<times> gap_record) list \<Rightarrow> error + (int \<times> gap_record) list" where
  "number_gaps_loop draws [] number_gaps' = Inr number_gaps'"
| "number_gaps_loop draws (num # nums) number_gaps' =
     on_ok (gap_record_of draws num)
       (\<lambda>entry. number_gaps_loop draws nums
                  (case entry of
                     None \<Rightarrow> number_gaps'
                   | Some r \<Rightarrow> dict_set num r number_gaps'))"

definition find_patterns :: "draw list \<Rightarrow> error + patterns" where
  "find_patterns draws =
     on_ok (number_gaps_loop draws [1..50] []) (\<lambda>ng. Inr \<lparr>number_gaps = ng\<rparr>)"

section \<open>Properties of counters and of sorting\<close>

lemma map_fst_setdefault_apply:
  "map fst (setdefault_apply k v f d) =
     (if k \<in> set (map fst d) then map fst d else map fst d @ [k])"
  by (induction d) force+

lemma setdefault_apply_keys:
  "fst ` set (setdefault_apply k v f d) = insert k (fst ` set d)"
proof -
  have "set (map fst (setdefault_apply k v f d)) = insert k (set (map fst d))"
    unfolding map_fst_setdefault_apply by auto
  then show ?thesis by simp
qed

lemma setdefault_apply_distinct:
  "distinct (map fst d) \<Longrightarrow> distinct (map fst (setdefault_apply k v f d))"
  unfolding map_fst_setdefault_apply by simp

lemma counter_incr_sum:
  "sum_list (map snd (counter_incr k cnt)) = sum_list (map snd cnt) + 1"
  unfolding counter_incr_def by (induction cnt) auto

lemma counter_incr_positive:
  "\<forall>p \<in> set cnt. 1 \<le> snd p \<Longrightarrow> \<forall>p \<in> set (counter_incr k cnt). 1 \<le> snd p"
  unfolding counter_incr_def by (induction cnt) (fastforce split: if_splits)+

lemma fold_counter_incr_sum:
  "sum_list (map snd (fold counter_incr xs cnt)) = sum_list (map snd cnt) + int (length xs)"
  by (induction xs arbitrary: cnt) (simp_all add: counter_incr_sum)

lemma fold_counter_incr_keys:
  "fst ` set (fold counter_incr xs cnt) = fst ` set cnt \<union> set xs"
  by (induction xs arbitrary: cnt) (auto simp: counter_incr_def setdefault_apply_keys)

lemma fold_counter_incr_distinct:
  "distinct (map fst cnt) \<Longrightarrow> distinct (map fst (fold counter_incr xs cnt))"
  by (induction xs arbitrary: cnt) (simp_all add: counter_incr_def setdefault_apply_distinct)

lemma fold_counter_incr_positive:
  "\<forall>p \<in> set cnt. 1 \<le> snd p \<Longrightarrow> \<forall>p \<in> set (fold counter_incr xs cnt). 1 \<le> snd p"
proof (induction xs arbitrary: cnt)
  case Nil
  then show ?case by simp
next
  case (Cons x xs)
  from Cons.prems have "\<forall>p \<in> set (counter_incr x cnt). 1 \<le> snd p"
    by (rule counter_incr_positive)
  then show ?case using Cons.IH by simp
qed

lemma Counter_sum: "sum_list (map snd (Counter xs)) = int (length xs)"
  by (simp add: Counter_def fold_counter_incr_sum)

lemma Counter_keys: "fst ` set (Counter xs) = set xs"
  by (simp add: Counter_def fold_counter_incr_keys)

lemma Counter_distinct: "distinct (map fst (Counter xs))"
  by (simp add: Counter_def fold_counter_incr_distinct)

lemma Counter_positive: "\<forall>p \<in> set (Counter xs). 1 \<le> snd p"
  unfolding Counter_def by (rule fold_counter_incr_positive) simp

lemma mset_argsort: "mset (argsort tie ks) = mset [0 ..< length ks]"
  by (simp add: argsort_def)



lemma mset_rows_at:
  assumes "mset p = mset [0 ..< length df]"
  shows "mset (map ((!) df) p) = mset df"
proof -
  have "mset (map ((!) df) p) = image_mset ((!) df) (mset p)"
    by simp
  also have "\<dots> = mset (map ((!) df) [0 ..< length df])"
    by (simp add: assms)
  also have "\<dots> = mset df"
    by (simp only: map_nth)
  finally show ?thesis .
qed


lemma mset_sort_values: "mset (sort_values tie col asc df) = mset df"
proof (cases asc)
  case True
  have "mset (map ((!) df) (argsort tie (map col df))) = mset df"
    by (rule mset_rows_at) (simp add: mset_argsort)
  with True show ?thesis
    by (simp add: sort_values_def)
next
  case False
  have "mset (map ((!) (rev df)) (argsort tie (rev (map col df)))) = mset (rev df)"
    by (rule mset_rows_at) (simp add: mset_argsort)
  with False show ?thesis
    by (simp add: sort_values_def)
qed

lemma set_sort_values: "set (sort_values tie col asc df) = set df"
  using mset_sort_values [of tie col asc df] by (metis set_mset_mset)

lemma sum_list_sort_values:
  fixes g :: "'r \<Rightarrow> int"
  shows "sum_list (map g (sort_values tie col asc df)) = sum_list (map g df)"
proof -
  have "sum_mset (mset (map g (sort_values tie col asc df))) = sum_mset (mset (map g df))"
    by (simp add: mset_sort_values)
  then show ?thesis by (simp only: sum_mset_sum_list)
qed

lemma mset_map_sort_values: "mset (map g (sort_values tie col asc df)) = mset (map g df)"
  by (simp add: mset_sort_values)



lemma sort_values_Nil: "sort_values tie col asc [] = []"
  by (simp add: sort_values_def argsort_def)


lemma extend_all: "fold (\<lambda>draw acc. acc @ numbers draw) draws acc0 = acc0 @ concat (map numbers draws)"
  by (induction draws arbitrary: acc0) simp_all

lemma length_concat_const:
  "\<forall>d \<in> set draws. length (numbers d) = n \<Longrightarrow> length (concat (map numbers draws)) = length draws * n"
  by (induction draws) simp_all

lemma main_numbers_total:
  "sum_list (map frequency (main (analyze_frequency tie draws)))
     = int (length (concat (map numbers draws)))"
proof -
  have "frequency \<circ> (\<lambda>(k, c). \<lparr>number = k, frequency = c\<rparr>) = snd"
    by (auto simp: fun_eq_iff)
  then show ?thesis
    by (simp add: analyze_frequency_def sum_list_sort_values extend_all Counter_sum)
qed

lemma map_of_setdefault_apply:
  "map_of (setdefault_apply k v f d) =
     (map_of d)(k \<mapsto> (case map_of d k of None \<Rightarrow> v | Some v' \<Rightarrow> f v'))"
  by (induction d) (auto simp: fun_eq_iff)

lemma map_of_counter_incr:
  "map_of (counter_incr x cnt) k =
     (if x = k then Some ((case map_of cnt k of None \<Rightarrow> 0 | Some c \<Rightarrow> c) + 1) else map_of cnt k)"
  by (simp add: counter_incr_def map_of_setdefault_apply split: option.splits)

lemma map_of_fold_counter_incr:
  "map_of (fold counter_incr xs cnt) k =
     (if k \<in> set xs
      then Some ((case map_of cnt k of None \<Rightarrow> 0 | Some c \<Rightarrow> c) + int (count_list xs k))
      else map_of cnt k)"
proof (induction xs arbitrary: cnt)
  case Nil
  show ?case by simp
next
  case (Cons x xs)
  show ?case
    by (simp add: Cons.IH map_of_counter_incr split: option.splits)
qed

lemma Counter_lookup:
  "(k, c) \<in> set (Counter xs) \<longleftrightarrow> k \<in> set xs \<and> c = int (count_list xs k)"
proof -
  have "(k, c) \<in> set (Counter xs) \<longleftrightarrow> map_of (Counter xs) k = Some c"
    using Counter_distinct [of xs] by simp
  also have "\<dots> \<longleftrightarrow> k \<in> set xs \<and> c = int (count_list xs k)"
    by (auto simp: Counter_def map_of_fold_counter_incr)
  finally show ?thesis .
qed

lemma main_rows:
  "set (main (analyze_frequency tie draws)) =
     (\<lambda>(k, c). \<lparr>number = k, frequency = c\<rparr>) ` set (Counter (concat (map numbers draws)))"
  by (simp add: analyze_frequency_def set_sort_values extend_all)

lemma main_numbers_column:
  "mset (map number (main (analyze_frequency tie draws))) =
     mset (map fst (Counter (concat (map numbers draws))))"
proof -
  have "number \<circ> (\<lambda>(k, c). \<lparr>number = k, frequency = c\<rparr>) = fst"
    by (auto simp: fun_eq_iff)
  then show ?thesis
    by (simp add: analyze_frequency_def mset_sort_values extend_all multiset.map_comp)
qed

section \<open>C1: totals and keys of the Frequency Table\<close>

text \<open>
  C1. When every draw holds seven numbers, the frequencies of the table returned by
  \<open>analyze_frequency\<close> (whatever the sort does with equal keys) add up to \<open>len(draws) * 7\<close>, and the table holds exactly the
  numbers that occur in some draw: each of them once, with the number of its
  occurrences (at least one) as its frequency.
\<close>

theorem analyze_frequency_totals:
  assumes "\<forall>d \<in> set draws. length (numbers d) = 7"
  shows "sum_list (map frequency (main (analyze_frequency tie draws))) = int (length draws) * 7
       \<and> set (map number (main (analyze_frequency tie draws))) = (\<Union>d \<in> set draws. set (numbers d))
       \<and> distinct (map number (main (analyze_frequency tie draws)))
       \<and> (\<forall>r \<in> set (main (analyze_frequency tie draws)).
             frequency r = int (count_list (concat (map numbers draws)) (number r))
           \<and> 1 \<le> frequency r)"
proof (intro conjI ballI)
  show "sum_list (map frequency (main (analyze_frequency tie draws))) = int (length draws) * 7"
    using length_concat_const [OF assms] by (simp add: main_numbers_total)
next
  have "set (map number (main (analyze_frequency tie draws)))
          = set_mset (mset (map number (main (analyze_frequency tie draws))))"
    by simp
  also have "\<dots> = fst ` set (Counter (concat (map numbers draws)))"
    unfolding main_numbers_column by simp
  finally show "set (map number (main (analyze_frequency tie draws))) = (\<Union>d \<in> set draws. set (numbers d))"
    by (simp add: Counter_keys)
next
  show "distinct (map number (main (analyze_frequency tie draws)))"
    using main_numbers_column [of tie draws] Counter_distinct [of "concat (map numbers draws)"]
    by (metis mset_eq_imp_distinct_iff)
next
  fix r assume "r \<in> set (main (analyze_frequency tie draws))"
  then obtain k c where kc: "(k, c) \<in> set (Counter (concat (map numbers draws)))"
    and r: "r = \<lparr>number = k, frequency = c\<rparr>"
    unfolding main_rows by auto
  from kc show "frequency r = int (count_list (concat (map numbers draws)) (number r))"
    by (simp add: r Counter_lookup)
  from kc Counter_positive show "1 \<le> frequency r"
    by (fastforce simp: r)
qed

theorem analyze_frequency_totals_witness:
  "length (numbers \<lparr>date = ''2024-01-05'', numbers = [3, 8, 15, 21, 30, 42, 49], year = 2024\<rparr>) = 7
   \<and> length (numbers \<lparr>date = ''2024-01-09'', numbers = [3, 9, 15, 22, 30, 41, 50], year = 2024\<rparr>) = 7
   \<and> sum_list (map frequency (main (analyze_frequency (\<lambda>ks i. i)
        [\<lparr>date = ''2024-01-05'', numbers = [3, 8, 15, 21, 30, 42, 49], year = 2024\<rparr>,
         \<lparr>date = ''2024-01-09'', numbers = [3, 9, 15, 22, 30, 41, 50], year = 2024\<rparr>]))) = 14
   \<and> set (map number (main (analyze_frequency (\<lambda>ks i. i)
        [\<lparr>date = ''2024-01-05'', numbers = [3, 8, 15, 21, 30, 42, 49], year = 2024\<rparr>,
         \<lparr>date = ''2024-01-09'', numbers = [3, 9, 15, 22, 30, 41, 50], year = 2024\<rparr>])))
       = {3, 8, 9, 15, 21, 22, 30, 41, 42, 49, 50}"
  using analyze_frequency_totals
    [where draws = "[\<lparr>date = ''2024-01-05'', numbers = [3, 8, 15, 21, 30, 42, 49], year = 2024\<rparr>,
          \<lparr>date = ''2024-01-09'', numbers = [3, 9, 15, 22, 30, 41, 50], year = 2024\<rparr>]"
       and tie = "\<lambda>ks i. i"]
  by auto

section \<open>C8: empty input\<close>

text \<open>
  C8. On no draws at all \<open>calculate_additional_stats\<close> returns the empty dictionary
  (its "no data" result) and raises nothing, and \<open>analyze_frequency\<close> returns a frame
  without rows.
\<close>

theorem empty_input_results:
  "calculate_additional_stats [] = Inr None \<and> analyze_frequency tie [] = \<lparr>main = []\<rparr>"
  by (simp add: calculate_additional_stats_def analyze_frequency_def Counter_def sort_values_Nil)

section \<open>Properties of the deviation columns and of their sort\<close>

lemma mset_sort_values_float: "mset (sort_values_float tie col asc df) = mset df"
  by (simp add: sort_values_float_def mset_sort_values)

lemma set_sort_values_float: "set (sort_values_float tie col asc df) = set df"
  using mset_sort_values_float [of tie col asc df] by (metis set_mset_mset)

lemma length_sort_values_float: "length (sort_values_float tie col asc df) = length df"
  using mset_sort_values_float [of tie col asc df] by (metis size_mset)

lemma find_hot_cold_numbers_eq:
  "find_hot_cold_numbers tie freq_df total_draws p =
     \<lparr>period = p,
      hot = take 10 (sort_values_float tie deviation False
              (map (with_deviation (rat_of_int total_draws * 7 / 50)) freq_df)),
      cold = take 10 (sort_values_float tie deviation True
              (map (with_deviation (rat_of_int total_draws * 7 / 50)) freq_df))\<rparr>"
  by (simp add: find_hot_cold_numbers_def Let_def)

lemma with_deviation_sel:
  "number (with_deviation e r) = number r"
  "frequency (with_deviation e r) = frequency r"
  "expected (with_deviation e r) = e"
  by (simp_all add: with_deviation_def)

lemma deviation_finite:
  "e \<noteq> 0 \<Longrightarrow>
   deviation (with_deviation e r) = Finite ((rat_of_int (frequency r) - e) / e * 100)"
  by (simp add: with_deviation_def float_div_def)

section \<open>C10: hot and cold lists of a short table\<close>

text \<open>
  C10. The hot and the cold list are not disjoint in general: when the frequency table
  has at most ten rows (and \<open>total_draws\<close> is at least one), \<open>head(10)\<close> cuts
  nothing off, so both lists hold every row of the table, and so the same numbers; for a
  table with a row they share a number. This holds whatever the sort does with equal
  keys.
\<close>

theorem hot_cold_same_numbers:
  assumes "length freq_df \<le> 10" and "1 \<le> total_draws"
  shows "\<exists>r. find_hot_cold_numbers tie freq_df total_draws p = r
           \<and> set (hot r) = set (cold r)
           \<and> set (map number (hot r)) = set (map number (cold r))
           \<and> set (map number (hot r)) = set (map number freq_df)
           \<and> (freq_df \<noteq> [] \<longrightarrow> set (map number (hot r)) \<inter> set (map number (cold r)) \<noteq> {})"
proof -
  define e where "e = rat_of_int total_draws * 7 / 50"
  define df where "df = map (with_deviation e) freq_df"
  define r where "r = \<lparr>period = p, hot = take 10 (sort_values_float tie deviation False df),
                         cold = take 10 (sort_values_float tie deviation True df)\<rparr>"
  have res: "find_hot_cold_numbers tie freq_df total_draws p = r"
    by (simp add: find_hot_cold_numbers_eq e_def df_def r_def)
  have len: "length df \<le> 10" using assms(1) by (simp add: df_def)
  have h: "set (hot r) = set df"
    using len by (simp add: r_def length_sort_values_float set_sort_values_float)
  have c: "set (cold r) = set df"
    using len by (simp add: r_def length_sort_values_float set_sort_values_float)
  have n: "number ` set df = number ` set freq_df"
    by (simp add: df_def image_image with_deviation_sel)
  have "freq_df \<noteq> [] \<longrightarrow> number ` set df \<noteq> {}"
    by (simp add: df_def)
  with res h c n show ?thesis by auto
qed

theorem hot_cold_same_numbers_witness:
  "length [\<lparr>number = 3, frequency = 2\<rparr>, \<lparr>number = 8, frequency = 1\<rparr>] \<le> 10
   \<and> (1::int) \<le> 2
   \<and> (\<exists>r. find_hot_cold_numbers (\<lambda>ks i. i)
              [\<lparr>number = 3, frequency = 2\<rparr>, \<lparr>number = 8, frequency = 1\<rparr>] 2 ''all time'' = r
           \<and> set (map number (hot r)) = {3, 8} \<and> set (map number (cold r)) = {3, 8})"
  using hot_cold_same_numbers
    [where freq_df = "[\<lparr>number = 3, frequency = 2\<rparr>, \<lparr>number = 8, frequency = 1\<rparr>]"
       and total_draws = 2 and p = "''all time''" and tie = "\<lambda>ks i. i"]
  by auto

section \<open>C3: which numbers the Deviation Scorer scores\<close>

text \<open>
  C3 fails on the code: \<open>find_hot_cold_numbers\<close> adds its two columns to the frame
  it is given and ranks the rows of that frame; it never goes through the pool 1..50.
  After one draw of the numbers 1 to 7 the cold list has the seven drawn numbers, each
  with frequency 1, and no row for any of the 43 numbers that were never drawn. (The
  seven rows have equal keys; they are shown for the sort that leaves equal keys in
  place, and any other sort lists the same seven rows in another order.)
\<close>

theorem absent_number_not_scored:
  "map (\<lambda>row. (number row, frequency row, deviation row))
     (cold (find_hot_cold_numbers (\<lambda>ks i. i)
        (main (analyze_frequency (\<lambda>ks i. i)
           [\<lparr>date = ''2024-01-05'', numbers = [1, 2, 3, 4, 5, 6, 7], year = 2024\<rparr>]))
        1 ''all time''))
   = [(1, 1, Finite (4300 / 7)), (2, 1, Finite (4300 / 7)), (3, 1, Finite (4300 / 7)),
      (4, 1, Finite (4300 / 7)), (5, 1, Finite (4300 / 7)), (6, 1, Finite (4300 / 7)),
      (7, 1, Finite (4300 / 7))]"
  by code_simp

text \<open>
  C3 as amended. For \<open>total_draws\<close> of at least one, every row of the hot and of
  the cold list is a row of the frequency table passed in, with
  \<open>expected = total_draws * 7 / 50\<close> and
  \<open>deviation = (frequency - expected) / expected * 100\<close>; a number that is absent
  from the table is in neither list.
\<close>

theorem scored_rows_are_table_rows:
  assumes "1 \<le> total_draws"
  shows "\<exists>r. find_hot_cold_numbers tie freq_df total_draws p = r
           \<and> (\<forall>row \<in> set (hot r) \<union> set (cold r).
                 expected row = rat_of_int total_draws * 7 / 50
               \<and> deviation row
                   = Finite ((rat_of_int (frequency row) - expected row) / expected row * 100)
               \<and> \<lparr>number = number row, frequency = frequency row\<rparr> \<in> set freq_df)
           \<and> set (map number (hot r)) \<subseteq> set (map number freq_df)
           \<and> set (map number (cold r)) \<subseteq> set (map number freq_df)"
proof -
  define e where "e = rat_of_int total_draws * 7 / 50"
  define df where "df = map (with_deviation e) freq_df"
  define r where "r = \<lparr>period = p, hot = take 10 (sort_values_float tie deviation False df),
                         cold = take 10 (sort_values_float tie deviation True df)\<rparr>"
  have e: "e \<noteq> 0" using assms by (simp add: e_def)
  have res: "find_hot_cold_numbers tie freq_df total_draws p = r"
    by (simp add: find_hot_cold_numbers_eq e_def df_def r_def)
  have h: "set (hot r) \<subseteq> set df"
    using set_take_subset [of 10 "sort_values_float tie deviation False df"]
    by (simp add: r_def set_sort_values_float)
  have c: "set (cold r) \<subseteq> set df"
    using set_take_subset [of 10 "sort_values_float tie deviation True df"]
    by (simp add: r_def set_sort_values_float)
  have rows: "expected row = e
      \<and> deviation row = Finite ((rat_of_int (frequency row) - expected row) / expected row * 100)
      \<and> \<lparr>number = number row, frequency = frequency row\<rparr> \<in> set freq_df"
    if "row \<in> set df" for row
  proof -
    from that obtain x where x: "x \<in> set freq_df" and row: "row = with_deviation e x"
      by (auto simp: df_def)
    have "\<lparr>number = number row, frequency = frequency row\<rparr> = x"
      by (simp add: row with_deviation_sel)
    then have "\<lparr>number = number row, frequency = frequency row\<rparr> \<in> set freq_df"
      using x by (simp only:)
    then show ?thesis by (simp add: row with_deviation_sel deviation_finite [OF e])
  qed
  have nums: "number ` set df = number ` set freq_df"
    by (simp add: df_def image_image with_deviation_sel)
  have "number ` set (hot r) \<subseteq> number ` set df" "number ` set (cold r) \<subseteq> number ` set df"
    using h c by (simp_all add: image_mono)
  then have "set (map number (hot r)) \<subseteq> set (map number freq_df)"
    and "set (map number (cold r)) \<subseteq> set (map number freq_df)"
    unfolding nums by simp_all
  moreover from h c rows
  have "\<forall>row \<in> set (hot r) \<union> set (cold r).
          expected row = rat_of_int total_draws * 7 / 50
        \<and> deviation row
            = Finite ((rat_of_int (frequency row) - expected row) / expected row * 100)
        \<and> \<lparr>number = number row, frequency = frequency row\<rparr> \<in> set freq_df"
    unfolding e_def [symmetric] by blast
  ultimately show ?thesis using res by blast
qed

theorem scored_rows_are_table_rows_witness:
  "(1::int) \<le> 1
   \<and> (\<exists>r. find_hot_cold_numbers (\<lambda>ks i. i)
            [\<lparr>number = 3, frequency = 1\<rparr>, \<lparr>number = 8, frequency = 1\<rparr>] 1 ''all time'' = r
         \<and> set (map number (hot r)) \<subseteq> {3, 8} \<and> set (map number (cold r)) \<subseteq> {3, 8})"
  using scored_rows_are_table_rows
    [where total_draws = 1
       and freq_df = "[\<lparr>number = 3, frequency = 1\<rparr>, \<lparr>number = 8, frequency = 1\<rparr>]"
       and p = "''all time''" and tie = "\<lambda>ks i. i"]
  by auto

section \<open>C4: order of rows with equal keys\<close>








section \<open>C6: the statistics of one draw\<close>

lemma example_labels:
  "odd_even_label 2 = ''2 odd, 5 even''"
  "high_low_label 2 = ''2 high, 5 low''"
  "consecutive_label 2 = ''2 consecutive pairs''"
  by code_simp+

lemma sum_list_filter_perm:
  fixes f :: "int \<Rightarrow> int"
  assumes "mset xs = mset ys"
  shows "sum_list (map f (filter P xs)) = sum_list (map f (filter P ys))"
proof -
  have "sum_mset (mset (map f (filter P xs))) = sum_mset (mset (map f (filter P ys)))"
    by (simp add: assms)
  then show ?thesis by (simp only: sum_mset_sum_list)
qed

lemma sum_list_perm:
  fixes xs :: "int list"
  assumes "mset xs = mset ys"
  shows "sum_list xs = sum_list ys"
proof -
  have "sum_mset (mset xs) = sum_mset (mset ys)" by (simp add: assms)
  then show ?thesis by (simp only: sum_mset_sum_list)
qed

lemma py_max_Max: "xs \<noteq> [] \<Longrightarrow> py_max xs = Inr (Max (set xs))"
  by (cases xs) (simp_all add: Max.set_eq_fold [symmetric])

lemma py_min_Min: "xs \<noteq> [] \<Longrightarrow> py_min xs = Inr (Min (set xs))"
  by (cases xs) (simp_all add: Min.set_eq_fold [symmetric])

text \<open>
  C6 fails on the code in one of its five values: of the numbers 1, 2, 3, 10, 20, 30
  and 40 only 1 and 3 are odd, and \<open>odd_count\<close> is 2, not 4.
\<close>

theorem odd_count_of_example_not_four:
  "odd_count \<lparr>date = ''2024-01-05'', numbers = [1, 2, 3, 10, 20, 30, 40], year = 2024\<rparr> = 2
   \<and> odd_count \<lparr>date = ''2024-01-05'', numbers = [1, 2, 3, 10, 20, 30, 40], year = 2024\<rparr> \<noteq> 4"
  by (simp add: odd_count_def)

text \<open>
  C6 as amended. For a single draw that holds exactly the numbers 1, 2, 3, 10, 20, 30
  and 40, in any order and whatever its date and year, the per-draw values are
  odd_count = 2, high_count = 2, consecutive_pairs = 2, sum = 106 and range = 39, and
  the statistics of the draw set that holds just this draw are built from these values.
\<close>

theorem single_draw_statistics:
  assumes nums: "mset (numbers d) = mset [1, 2, 3, 10, 20, 30, 40]"
  shows "odd_count d = 2
   \<and> high_count d = 2
   \<and> consecutive_pairs d = 2
   \<and> sum_list (numbers d) = 106
   \<and> draw_range d = Inr 39
   \<and> calculate_additional_stats [d]
       = Inr (Some \<lparr>average_sum = 106, min_sum = 106, max_sum = 106,
                    odd_even_distribution = [(''2 odd, 5 even'', 1)],
                    avg_odd_numbers = 2,
                    high_low_distribution = [(''2 high, 5 low'', 1)],
                    avg_high_numbers = 2,
                    consecutive_pairs_distribution = [(''2 consecutive pairs'', 1)],
                    avg_consecutive_pairs = 2,
                    avg_range = 39, min_range = 39, max_range = 39\<rparr>)"
proof -
  have odd: "odd_count d = 2"
    unfolding odd_count_def sum_list_filter_perm [OF nums] by simp
  have high: "high_count d = 2"
    unfolding high_count_def sum_list_filter_perm [OF nums] by simp
  have "sort (numbers d) = [1, 2, 3, 10, 20, 30, 40]"
    by (rule properties_for_sort) (simp_all add: nums)
  moreover have "[0 ..< 6] = [0, 1, 2, 3, 4, 5]" by (simp add: upt_rec)
  ultimately have cons: "consecutive_pairs d = 2"
    by (simp add: consecutive_pairs_def)
  have total: "sum_list (numbers d) = 106"
    unfolding sum_list_perm [OF nums] by simp
  from nums have "set_mset (mset (numbers d)) = set_mset (mset [1, 2, 3, 10, 20, 30, 40])"
    by (simp only:)
  then have elems: "set (numbers d) = {1, 2, 3, 10, 20, 30, 40}"
    by simp
  then have ne: "numbers d \<noteq> []" by auto
  have rng: "draw_range d = Inr 39"
    by (simp add: draw_range_def on_ok_def py_max_Max [OF ne] py_min_Min [OF ne] elems)
  have "calculate_additional_stats [d]
       = Inr (Some \<lparr>average_sum = 106, min_sum = 106, max_sum = 106,
                    odd_even_distribution = [(''2 odd, 5 even'', 1)],
                    avg_odd_numbers = 2,
                    high_low_distribution = [(''2 high, 5 low'', 1)],
                    avg_high_numbers = 2,
                    consecutive_pairs_distribution = [(''2 consecutive pairs'', 1)],
                    avg_consecutive_pairs = 2,
                    avg_range = 39, min_range = 39, max_range = 39\<rparr>)"
    unfolding calculate_additional_stats_def
    by (simp add: odd high cons rng total on_ok_def py_mean_def distribution_def Counter_def
                  counter_incr_def example_labels)
  with odd high cons total rng show ?thesis by (simp only: simp_thms)
qed

theorem single_draw_statistics_witness:
  "mset (numbers \<lparr>date = ''2024-01-05'', numbers = [40, 1, 30, 2, 20, 3, 10], year = 2024\<rparr>)
     = mset [1, 2, 3, 10, 20, 30, 40]
   \<and> odd_count \<lparr>date = ''2024-01-05'', numbers = [40, 1, 30, 2, 20, 3, 10], year = 2024\<rparr> = 2
   \<and> high_count \<lparr>date = ''2024-01-05'', numbers = [40, 1, 30, 2, 20, 3, 10], year = 2024\<rparr> = 2
   \<and> consecutive_pairs \<lparr>date = ''2024-01-05'', numbers = [40, 1, 30, 2, 20, 3, 10], year = 2024\<rparr> = 2
   \<and> sum_list (numbers \<lparr>date = ''2024-01-05'', numbers = [40, 1, 30, 2, 20, 3, 10], year = 2024\<rparr>) = 106
   \<and> draw_range \<lparr>date = ''2024-01-05'', numbers = [40, 1, 30, 2, 20, 3, 10], year = 2024\<rparr> = Inr 39"
proof -
  have h: "mset (numbers \<lparr>date = ''2024-01-05'', numbers = [40, 1, 30, 2, 20, 3, 10], year = 2024\<rparr>)
     = mset [1, 2, 3, 10, 20, 30, 40]"
    by simp
  from single_draw_statistics [OF h] h show ?thesis by (simp only: simp_thms)
qed

section \<open>C2: totals and keys of the Combination Table\<close>

lemma length_combinations: "length (combinations xs r) = length xs choose r"
  by (induction xs r rule: combinations.induct) simp_all


lemma combinations_elem:
  "c \<in> set (combinations xs r) \<Longrightarrow> sorted_wrt P xs \<Longrightarrow>
     length c = r \<and> set c \<subseteq> set xs \<and> sorted_wrt P c"
proof (induction xs r arbitrary: c rule: combinations.induct)
  case (1 xs)
  then show ?case by simp
next
  case (2 r)
  then show ?case by simp
next
  case (3 x xs r)
  from "3.prems"(2) have sx: "sorted_wrt P xs" and px: "\<forall>y \<in> set xs. P x y"
    by simp_all
  from "3.prems"(1) consider
      (take) c' where "c = x # c'" "c' \<in> set (combinations xs r)"
    | (skip) "c \<in> set (combinations xs (Suc r))"
    by auto
  then show ?case
  proof cases
    case take
    with "3.IH"(1) [OF take(2) sx] px show ?thesis by auto
  next
    case skip
    with "3.IH"(2) [OF skip sx] show ?thesis by auto
  qed
qed

lemma count_combinations_ok:
  "0 \<le> k \<Longrightarrow>
   count_combinations k draws cnt =
     Inr (fold counter_incr
            (concat (map (\<lambda>d. combinations (sort (numbers d)) (nat k)) draws)) cnt)"
  by (induction draws arbitrary: cnt)
     (simp_all add: itertools_combinations_def on_ok_def)


lemma combo_frequency_column:
  "map combo_row.frequency
     (map (\<lambda>(combo, c). \<lparr>combination = str_tuple combo, frequency = c\<rparr>) cnt) = map snd cnt"
  by (induction cnt) auto

lemma combo_combination_column:
  "map combination
     (map (\<lambda>(combo, c). \<lparr>combination = str_tuple combo, frequency = c\<rparr>) cnt)
     = map (str_tuple \<circ> fst) cnt"
  by (induction cnt) auto

lemma sum_list_concat_const:
  "\<forall>x \<in> set xs. length (f x) = n \<Longrightarrow> length (concat (map f xs)) = length xs * n"
  by (induction xs) simp_all

text \<open>
  C2. When every draw holds seven distinct numbers and \<open>1 \<le> k \<le> 7\<close>,
  \<open>analyze_combinations\<close> returns (whatever the sort does with equal keys) a
  frame whose frequencies add up to
  \<open>len(draws) * C(7, k)\<close>. Its "combination" column is \<^verbatim>\<open>str\<close> of the keys of
  the counter; these keys are distinct, they are the \<open>k\<close>-element subsequences of
  the sorted draws, and each is a strictly ascending tuple of length \<open>k\<close>.
\<close>

theorem analyze_combinations_totals:
  assumes seven: "\<forall>d \<in> set draws. length (numbers d) = 7 \<and> distinct (numbers d)"
    and k: "1 \<le> k" "k \<le> 7"
  shows "\<exists>cnt df. combinations_count draws k = Inr cnt
           \<and> analyze_combinations tie draws k = Inr df
           \<and> sum_list (map combo_row.frequency df) = int (length draws) * int (7 choose nat k)
           \<and> mset (map combination df) = mset (map (str_tuple \<circ> fst) cnt)
           \<and> distinct (map fst cnt)
           \<and> set (map fst cnt) = (\<Union>d \<in> set draws. set (combinations (sort (numbers d)) (nat k)))
           \<and> (\<forall>combo \<in> set (map fst cnt). length combo = nat k \<and> sorted_wrt (<) combo)"
proof -
  let ?combos = "concat (map (\<lambda>d. combinations (sort (numbers d)) (nat k)) draws)"
  let ?mk = "\<lambda>(combo, c). \<lparr>combination = str_tuple combo, frequency = c\<rparr>"
  define cnt where "cnt = fold counter_incr ?combos []"
  define df where "df = sort_values tie combo_row.frequency False (map ?mk cnt)"
  have cc: "combinations_count draws k = Inr cnt"
    using k by (simp add: combinations_count_def count_combinations_ok cnt_def)
  then have ac: "analyze_combinations tie draws k = Inr df"
    by (simp add: analyze_combinations_def on_ok_def df_def)
  have "\<forall>d \<in> set draws. length (combinations (sort (numbers d)) (nat k)) = 7 choose nat k"
    using seven by (simp add: length_combinations)
  then have "length ?combos = length draws * (7 choose nat k)"
    by (rule sum_list_concat_const)
  then have total: "sum_list (map snd cnt) = int (length draws) * int (7 choose nat k)"
    by (simp add: cnt_def fold_counter_incr_sum)
  have "sum_list (map combo_row.frequency df) = sum_list (map snd cnt)"
    by (simp only: df_def sum_list_sort_values combo_frequency_column)
  with total have sum: "sum_list (map combo_row.frequency df)
                          = int (length draws) * int (7 choose nat k)"
    by simp
  have col: "mset (map combination df) = mset (map (str_tuple \<circ> fst) cnt)"
    unfolding df_def mset_map_sort_values by (simp only: combo_combination_column)
  have dist: "distinct (map fst cnt)"
    by (simp add: cnt_def fold_counter_incr_distinct)
  have "fst ` set cnt = set ?combos"
    by (simp add: cnt_def fold_counter_incr_keys)
  then have keys: "set (map fst cnt)
                     = (\<Union>d \<in> set draws. set (combinations (sort (numbers d)) (nat k)))"
    by simp
  have shape: "length combo = nat k \<and> sorted_wrt (<) combo" if "combo \<in> set (map fst cnt)" for combo
  proof -
    from that keys obtain d where d: "d \<in> set draws"
      and c: "combo \<in> set (combinations (sort (numbers d)) (nat k))"
      by auto
    from seven d have "sorted_wrt (<) (sort (numbers d))"
      by (simp add: strict_sorted_iff)
    from combinations_elem [OF c this] show ?thesis by simp
  qed
  from cc ac sum col dist keys shape show ?thesis by blast
qed


theorem analyze_combinations_totals_witness:
  "length (numbers \<lparr>date = ''2024-01-05'', numbers = [3, 8, 15, 21, 30, 42, 49], year = 2024\<rparr>) = 7
   \<and> distinct (numbers \<lparr>date = ''2024-01-05'', numbers = [3, 8, 15, 21, 30, 42, 49], year = 2024\<rparr>)
   \<and> length (numbers \<lparr>date = ''2024-01-09'', numbers = [50, 9, 15, 22, 30, 41, 3], year = 2024\<rparr>) = 7
   \<and> distinct (numbers \<lparr>date = ''2024-01-09'', numbers = [50, 9, 15, 22, 30, 41, 3], year = 2024\<rparr>)
   \<and> (1::int) \<le> 2 \<and> (2::int) \<le> 7
   \<and> (\<exists>df. analyze_combinations (\<lambda>ks i. i)
          [\<lparr>date = ''2024-01-05'', numbers = [3, 8, 15, 21, 30, 42, 49], year = 2024\<rparr>,
           \<lparr>date = ''2024-01-09'', numbers = [50, 9, 15, 22, 30, 41, 3], year = 2024\<rparr>] 2 = Inr df
        \<and> sum_list (map combo_row.frequency df) = 42)"
proof -
  let ?X = "[\<lparr>date = ''2024-01-05'', numbers = [3, 8, 15, 21, 30, 42, 49], year = 2024\<rparr>,
             \<lparr>date = ''2024-01-09'', numbers = [50, 9, 15, 22, 30, 41, 3], year = 2024\<rparr>]"
  have h: "\<forall>d \<in> set ?X. length (numbers d) = 7 \<and> distinct (numbers d)"
    by simp
  have k: "(1::int) \<le> 2" "(2::int) \<le> 7"
    by simp_all
  from analyze_combinations_totals [OF h k, where tie = "\<lambda>ks i. i"] obtain df where
    "analyze_combinations (\<lambda>ks i. i) ?X 2 = Inr df"
    "sum_list (map combo_row.frequency df) = int (length ?X) * int (7 choose nat 2)"
    by blast
  moreover have "(7::nat) choose 2 = 21"
    by code_simp
  ultimately have "\<exists>df. analyze_combinations (\<lambda>ks i. i) ?X 2 = Inr df
                      \<and> sum_list (map combo_row.frequency df) = 42"
    by simp
  then show ?thesis by simp
qed

section \<open>C5: tuple sizes outside 1..7\<close>







section \<open>C9: the partition by year\<close>

lemma group_step_total:
  fixes h :: "draw \<Rightarrow> int"
  shows "sum_list (map (\<lambda>(y, l). sum_list (map h l))
            (setdefault_apply k [d] (\<lambda>l. l @ [d]) groups))
         = sum_list (map (\<lambda>(y, l). sum_list (map h l)) groups) + h d"
  by (induction groups) auto

lemma fold_group_total:
  fixes h :: "draw \<Rightarrow> int"
  shows "sum_list (map (\<lambda>(y, l). sum_list (map h l))
            (fold (\<lambda>draw d. setdefault_apply (year draw) [draw] (\<lambda>l. l @ [draw]) d) draws groups))
         = sum_list (map (\<lambda>(y, l). sum_list (map h l)) groups) + sum_list (map h draws)"
  by (induction draws arbitrary: groups) (simp_all add: group_step_total)

lemma fold_group_keys:
  "fst ` set (fold (\<lambda>draw d. setdefault_apply (year draw) [draw] (\<lambda>l. l @ [draw]) d) draws groups)
     = fst ` set groups \<union> year ` set draws"
  by (induction draws arbitrary: groups) (auto simp: setdefault_apply_keys)

lemma fold_group_distinct:
  "distinct (map fst groups) \<Longrightarrow>
   distinct (map fst (fold (\<lambda>draw d. setdefault_apply (year draw) [draw] (\<lambda>l. l @ [draw]) d) draws groups))"
  by (induction draws arbitrary: groups) (simp_all add: setdefault_apply_distinct)

lemma fold_group_lookup:
  "map_of (fold (\<lambda>draw d. setdefault_apply (year draw) [draw] (\<lambda>l. l @ [draw]) d) draws groups) y
     = (case map_of groups y of
          None \<Rightarrow> (if y \<in> year ` set draws then Some (filter (\<lambda>d. year d = y) draws) else None)
        | Some l \<Rightarrow> Some (l @ filter (\<lambda>d. year d = y) draws))"
proof (induction draws arbitrary: groups)
  case Nil
  show ?case by (simp split: option.splits)
next
  case (Cons d draws)
  show ?case
    by (simp add: Cons.IH map_of_setdefault_apply split: option.splits)
qed

lemma draws_by_year_keys: "fst ` set (draws_by_year draws) = year ` set draws"
  by (simp add: draws_by_year_def fold_group_keys)

lemma draws_by_year_distinct: "distinct (map fst (draws_by_year draws))"
  by (simp add: draws_by_year_def fold_group_distinct)

lemma draws_by_year_group:
  assumes "(y, l) \<in> set (draws_by_year draws)"
  shows "l = filter (\<lambda>d. year d = y) draws"
proof -
  from assms have "map_of (draws_by_year draws) y = Some l"
    using draws_by_year_distinct by simp
  then show ?thesis
    by (simp add: draws_by_year_def fold_group_lookup split: if_splits)
qed

lemma length_concat_sum:
  "int (length (concat (map numbers draws))) = sum_list (map (\<lambda>d. int (length (numbers d))) draws)"
  by (induction draws) simp_all

lemma yearly_totals:
  "sum_list (map (\<lambda>(y, df). sum_list (map frequency df)) (analyze_by_year tie draws))
     = sum_list (map frequency (main (analyze_frequency tie draws)))"
proof -
  have "map (\<lambda>(y, df). sum_list (map frequency df)) (analyze_by_year tie draws)
          = map (\<lambda>(y, l). sum_list (map (\<lambda>d. int (length (numbers d))) l)) (draws_by_year draws)"
    by (simp add: analyze_by_year_def case_prod_unfold main_numbers_total length_concat_sum)
  then show ?thesis
    by (simp add: draws_by_year_def fold_group_total main_numbers_total length_concat_sum)
qed

text \<open>
  C9. When every draw holds seven numbers, the keys of the result of
  \<open>analyze_by_year\<close> are exactly the years that occur in the draws, each once; the
  table of a year is the Frequency Table of the draws whose own \<open>year\<close> field is
  that year, in their order; and the totals of the per-year tables add up to the total
  of the Frequency Table of all draws, which is \<open>len(draws) * 7\<close>.
\<close>

theorem analyze_by_year_partition:
  assumes "\<forall>d \<in> set draws. length (numbers d) = 7"
  shows "set (map fst (analyze_by_year tie draws)) = year ` set draws
       \<and> distinct (map fst (analyze_by_year tie draws))
       \<and> (\<forall>(y, df) \<in> set (analyze_by_year tie draws).
             df = main (analyze_frequency tie (filter (\<lambda>d. year d = y) draws)))
       \<and> sum_list (map (\<lambda>(y, df). sum_list (map frequency df)) (analyze_by_year tie draws))
           = sum_list (map frequency (main (analyze_frequency tie draws)))
       \<and> sum_list (map frequency (main (analyze_frequency tie draws))) = int (length draws) * 7"
proof -
  have fst_eq: "map fst (analyze_by_year tie draws) = map fst (draws_by_year draws)"
    by (simp add: analyze_by_year_def case_prod_unfold)
  have keys: "set (map fst (analyze_by_year tie draws)) = year ` set draws"
    unfolding fst_eq using draws_by_year_keys [of draws] by simp
  have dist: "distinct (map fst (analyze_by_year tie draws))"
    unfolding fst_eq by (rule draws_by_year_distinct)
  have groups: "\<forall>(y, df) \<in> set (analyze_by_year tie draws).
             df = main (analyze_frequency tie (filter (\<lambda>d. year d = y) draws))"
    by (auto simp: analyze_by_year_def dest: draws_by_year_group)
  have "sum_list (map frequency (main (analyze_frequency tie draws))) = int (length draws) * 7"
    using length_concat_const [OF assms] by (simp add: main_numbers_total)
  with keys dist groups yearly_totals show ?thesis by simp
qed

theorem analyze_by_year_partition_witness:
  "length (numbers \<lparr>date = ''2023-12-29'', numbers = [3, 8, 15, 21, 30, 42, 49], year = 2023\<rparr>) = 7
   \<and> length (numbers \<lparr>date = ''2024-01-05'', numbers = [3, 9, 15, 22, 30, 41, 50], year = 2024\<rparr>) = 7
   \<and> length (numbers \<lparr>date = ''2023-12-22'', numbers = [1, 9, 16, 22, 31, 41, 50], year = 2023\<rparr>) = 7
   \<and> set (map fst (analyze_by_year (\<lambda>ks i. i)
        [\<lparr>date = ''2023-12-29'', numbers = [3, 8, 15, 21, 30, 42, 49], year = 2023\<rparr>,
         \<lparr>date = ''2024-01-05'', numbers = [3, 9, 15, 22, 30, 41, 50], year = 2024\<rparr>,
         \<lparr>date = ''2023-12-22'', numbers = [1, 9, 16, 22, 31, 41, 50], year = 2023\<rparr>])) = {2023, 2024}
   \<and> sum_list (map (\<lambda>(y, df). sum_list (map frequency df)) (analyze_by_year (\<lambda>ks i. i)
        [\<lparr>date = ''2023-12-29'', numbers = [3, 8, 15, 21, 30, 42, 49], year = 2023\<rparr>,
         \<lparr>date = ''2024-01-05'', numbers = [3, 9, 15, 22, 30, 41, 50], year = 2024\<rparr>,
         \<lparr>date = ''2023-12-22'', numbers = [1, 9, 16, 22, 31, 41, 50], year = 2023\<rparr>])) = 21"
  using analyze_by_year_partition
    [where tie = "\<lambda>ks i. i" and draws = "[\<lparr>date = ''2023-12-29'', numbers = [3, 8, 15, 21, 30, 42, 49], year = 2023\<rparr>,
          \<lparr>date = ''2024-01-05'', numbers = [3, 9, 15, 22, 30, 41, 50], year = 2024\<rparr>,
          \<lparr>date = ''2023-12-22'', numbers = [1, 9, 16, 22, 31, 41, 50], year = 2023\<rparr>]"]
  by auto

section \<open>C7: the gaps of a number seen at the chronological indices 2, 5 and 9\<close>

lemma gap_record_of_total: "\<exists>entry. gap_record_of draws num = Inr entry"
proof -
  obtain last_seen gaps where
    s: "scan_gaps num (enumerate 0 (sort_key date draws)) None [] = (last_seen, gaps)"
    by (cases "scan_gaps num (enumerate 0 (sort_key date draws)) None []")
  show ?thesis
  proof (cases gaps)
    case Nil
    with s show ?thesis by (simp add: gap_record_of_def)
  next
    case (Cons g gs)
    with s show ?thesis by (simp add: gap_record_of_def on_ok_def py_mean_def)
  qed
qed

lemma map_of_dict_set: "map_of (dict_set k v d) = (map_of d)(k \<mapsto> v)"
  by (simp add: dict_set_def map_of_setdefault_apply split: option.splits)

lemma number_gaps_loop_lookup:
  "\<exists>ng. number_gaps_loop draws nums acc = Inr ng
        \<and> (\<forall>n. map_of ng n =
               (if n \<in> set nums
                then (case gap_record_of draws n of Inr (Some r) \<Rightarrow> Some r | _ \<Rightarrow> map_of acc n)
                else map_of acc n))"
proof (induction nums arbitrary: acc)
  case Nil
  show ?case by simp
next
  case (Cons m nums)
  obtain entry where entry: "gap_record_of draws m = Inr entry"
    using gap_record_of_total by blast
  define acc' where "acc' = (case entry of None \<Rightarrow> acc | Some r \<Rightarrow> dict_set m r acc)"
  from Cons.IH [of acc'] obtain ng where
    ng: "number_gaps_loop draws nums acc' = Inr ng"
    and later: "\<And>n. map_of ng n =
               (if n \<in> set nums
                then (case gap_record_of draws n of Inr (Some r) \<Rightarrow> Some r | _ \<Rightarrow> map_of acc' n)
                else map_of acc' n)"
    by blast
  have run: "number_gaps_loop draws (m # nums) acc = Inr ng"
    by (simp add: entry on_ok_def ng flip: acc'_def)
  have acc': "map_of acc' n = (if n = m then (case entry of None \<Rightarrow> map_of acc n | Some r \<Rightarrow> Some r)
                               else map_of acc n)" for n
    by (simp add: acc'_def map_of_dict_set split: option.splits)
  have "map_of ng n =
               (if n \<in> set (m # nums)
                then (case gap_record_of draws n of Inr (Some r) \<Rightarrow> Some r | _ \<Rightarrow> map_of acc n)
                else map_of acc n)" for n
    using entry by (auto simp: later acc' split: option.splits sum.splits)
  with run show ?case by blast
qed

text \<open>
  The chronological index of a draw among draws of pairwise different dates is the
  number of draws with an earlier date; it is the index of the draw in the list sorted
  by date.
\<close>

lemma earlier_in_sorted:
  fixes f :: "'a \<Rightarrow> 'k::linorder"
  assumes "sorted_wrt (<) (map f xs)" and "i < length xs"
  shows "filter (\<lambda>x. f x < f (xs ! i)) xs = take i xs"
  using assms
proof (induction xs arbitrary: i)
  case Nil
  then show ?case by simp
next
  case (Cons a xs)
  from Cons.prems(1) have above: "\<forall>x \<in> set xs. f a < f x" and rest: "sorted_wrt (<) (map f xs)"
    by simp_all
  show ?case
  proof (cases i)
    case 0
    have "filter (\<lambda>x. f x < f a) xs = []"
      using above by (auto simp: filter_empty_conv)
    with 0 show ?thesis by simp
  next
    case (Suc j)
    with Cons.prems(2) have j: "j < length xs" by simp
    then have "f a < f (xs ! j)" using above by simp
    with Suc Cons.IH [OF rest j] show ?thesis by simp
  qed
qed

lemma chronological_index:
  assumes "distinct (map date draws)" and "i < length draws"
  shows "length (filter (\<lambda>d'. date d' < date (sort_key date draws ! i)) draws) = i"
proof -
  let ?sd = "sort_key date draws"
  let ?P = "\<lambda>d'. date d' < date (?sd ! i)"
  have "mset (map date ?sd) = mset (map date draws)"
    by simp
  then have "distinct (map date ?sd)"
    using assms(1) by (metis mset_eq_imp_distinct_iff)
  then have "sorted_wrt (<) (map date ?sd)"
    by (simp add: strict_sorted_iff)
  then have "filter ?P ?sd = take i ?sd"
    using assms(2) by (intro earlier_in_sorted) simp_all
  then have "length (filter ?P ?sd) = i"
    using assms(2) by simp
  moreover have "mset (filter ?P ?sd) = mset (filter ?P draws)"
    by simp
  then have "length (filter ?P ?sd) = length (filter ?P draws)"
    by (metis size_mset)
  ultimately show ?thesis by simp
qed

text \<open>
  C7 fails on the code in one point: the gaps themselves are not reported.
  \<open>find_patterns\<close> computes the list \<open>[3, 4]\<close> in a local variable and stores, for
  the number, a dictionary with the three keys avg_gap, max_gap and current_gap only.
  For ten draws in the order of their dates with the number 7 at the indices 2, 5 and 9,
  the entry of 7 is that dictionary, and it has no key "gaps".
\<close>

theorem gaps_list_not_reported:
  "map_sum id (\<lambda>p. map_of (number_gaps p) 7) (find_patterns
     [\<lparr>date = ''2024-01-02'', numbers = [3, 11, 18, 24, 30, 41, 49], year = 2024\<rparr>,
     \<lparr>date = ''2024-01-05'', numbers = [1, 8, 15, 22, 29, 36, 43], year = 2024\<rparr>,
     \<lparr>date = ''2024-01-09'', numbers = [7, 12, 19, 25, 33, 40, 50], year = 2024\<rparr>,
     \<lparr>date = ''2024-01-12'', numbers = [2, 9, 16, 23, 31, 38, 45], year = 2024\<rparr>,
     \<lparr>date = ''2024-01-16'', numbers = [4, 10, 17, 26, 32, 39, 46], year = 2024\<rparr>,
     \<lparr>date = ''2024-01-19'', numbers = [5, 7, 13, 20, 27, 34, 47], year = 2024\<rparr>,
     \<lparr>date = ''2024-01-23'', numbers = [6, 14, 21, 28, 35, 42, 48], year = 2024\<rparr>,
     \<lparr>date = ''2024-01-26'', numbers = [3, 9, 15, 24, 33, 41, 44], year = 2024\<rparr>,
     \<lparr>date = ''2024-01-30'', numbers = [1, 12, 18, 22, 30, 37, 50], year = 2024\<rparr>,
     \<lparr>date = ''2024-02-02'', numbers = [7, 11, 16, 29, 35, 40, 49], year = 2024\<rparr>])
   = Inr (Some [(''avg_gap'', PyFloat (7 / 2)), (''max_gap'', PyInt 4), (''current_gap'', PyInt 1)])
   \<and> map_sum id (\<lambda>p. map_option (\<lambda>entry. map_of entry ''gaps'') (map_of (number_gaps p) 7))
       (find_patterns
     [\<lparr>date = ''2024-01-02'', numbers = [3, 11, 18, 24, 30, 41, 49], year = 2024\<rparr>,
     \<lparr>date = ''2024-01-05'', numbers = [1, 8, 15, 22, 29, 36, 43], year = 2024\<rparr>,
     \<lparr>date = ''2024-01-09'', numbers = [7, 12, 19, 25, 33, 40, 50], year = 2024\<rparr>,
     \<lparr>date = ''2024-01-12'', numbers = [2, 9, 16, 23, 31, 38, 45], year = 2024\<rparr>,
     \<lparr>date = ''2024-01-16'', numbers = [4, 10, 17, 26, 32, 39, 46], year = 2024\<rparr>,
     \<lparr>date = ''2024-01-19'', numbers = [5, 7, 13, 20, 27, 34, 47], year = 2024\<rparr>,
     \<lparr>date = ''2024-01-23'', numbers = [6, 14, 21, 28, 35, 42, 48], year = 2024\<rparr>,
     \<lparr>date = ''2024-01-26'', numbers = [3, 9, 15, 24, 33, 41, 44], year = 2024\<rparr>,
     \<lparr>date = ''2024-01-30'', numbers = [1, 12, 18, 22, 30, 37, 50], year = 2024\<rparr>,
     \<lparr>date = ''2024-02-02'', numbers = [7, 11, 16, 29, 35, 40, 49], year = 2024\<rparr>])
   = Inr (Some None)"
proof -
  let ?X = "[\<lparr>date = ''2024-01-02'', numbers = [3, 11, 18, 24, 30, 41, 49], year = 2024\<rparr>,
           \<lparr>date = ''2024-01-05'', numbers = [1, 8, 15, 22, 29, 36, 43], year = 2024\<rparr>,
           \<lparr>date = ''2024-01-09'', numbers = [7, 12, 19, 25, 33, 40, 50], year = 2024\<rparr>,
           \<lparr>date = ''2024-01-12'', numbers = [2, 9, 16, 23, 31, 38, 45], year = 2024\<rparr>,
           \<lparr>date = ''2024-01-16'', numbers = [4, 10, 17, 26, 32, 39, 46], year = 2024\<rparr>,
           \<lparr>date = ''2024-01-19'', numbers = [5, 7, 13, 20, 27, 34, 47], year = 2024\<rparr>,
           \<lparr>date = ''2024-01-23'', numbers = [6, 14, 21, 28, 35, 42, 48], year = 2024\<rparr>,
           \<lparr>date = ''2024-01-26'', numbers = [3, 9, 15, 24, 33, 41, 44], year = 2024\<rparr>,
           \<lparr>date = ''2024-01-30'', numbers = [1, 12, 18, 22, 30, 37, 50], year = 2024\<rparr>,
           \<lparr>date = ''2024-02-02'', numbers = [7, 11, 16, 29, 35, 40, 49], year = 2024\<rparr>]"
  have entry: "gap_record_of ?X 7 = Inr (Some [(''avg_gap'', PyFloat (7 / 2)), (''max_gap'', PyInt 4), (''current_gap'', PyInt 1)])"
    by code_simp
  from number_gaps_loop_lookup [of ?X "[1..50]" "[]"] obtain ng where
    ng: "number_gaps_loop ?X [1..50] [] = Inr ng"
    and look: "\<And>n. map_of ng n =
               (if n \<in> set [1..50]
                then (case gap_record_of ?X n of Inr (Some r) \<Rightarrow> Some r | _ \<Rightarrow> map_of [] n)
                else map_of [] n)"
    by blast
  have "map_of ng 7 = Some [(''avg_gap'', PyFloat (7 / 2)), (''max_gap'', PyInt 4), (''current_gap'', PyInt 1)]"
    unfolding look entry by simp
  moreover have "find_patterns ?X = Inr \<lparr>number_gaps = ng\<rparr>"
    unfolding find_patterns_def ng by (simp add: on_ok_def)
  ultimately show ?thesis by simp
qed

text \<open>
  C7 as amended. Take ten draws of pairwise different dates, in any order, and a number
  of the pool that is in exactly the draws at the chronological indices 2, 5 and 9 (the
  draws with two, five and nine earlier draws). Then \<open>find_patterns\<close> returns,
  without raising, a dictionary whose entry for the number is
  \<open>avg_gap = 3.5\<close>, \<open>max_gap = 4\<close> and \<open>current_gap = 10 - 9 = 1\<close>, and
  nothing else: the gaps 3 and 4 are not in it.
\<close>

theorem gap_statistics_example:
  assumes len: "length draws = 10"
    and dates: "distinct (map date draws)"
    and seen: "\<forall>d \<in> set draws.
                 num \<in> set (numbers d)
                   \<longleftrightarrow> length (filter (\<lambda>d'. date d' < date d) draws) \<in> {2, 5, 9}"
    and pool: "1 \<le> num" "num \<le> 50"
  shows "\<exists>p entry. find_patterns draws = Inr p
           \<and> map_of (number_gaps p) num = Some entry
           \<and> entry = [(''avg_gap'', PyFloat (7 / 2)), (''max_gap'', PyInt 4), (''current_gap'', PyInt 1)]
           \<and> map_of entry ''gaps'' = None"
proof -
  define sd where "sd = sort_key date draws"
  have member: "num \<in> set (numbers (sd ! i)) \<longleftrightarrow> i \<in> {2, 5, 9}" if "i < 10" for i
  proof -
    from that len have i: "i < length draws" by simp
    then have "sd ! i \<in> set sd" unfolding sd_def by (intro nth_mem) simp
    then have "sd ! i \<in> set draws" by (simp add: sd_def)
    with seen have "num \<in> set (numbers (sd ! i))
        \<longleftrightarrow> length (filter (\<lambda>d'. date d' < date (sd ! i)) draws) \<in> {2, 5, 9}"
      by blast
    then show ?thesis
      unfolding sd_def by (simp only: chronological_index [OF dates i])
  qed
  from len have "length sd = 10" by (simp add: sd_def)
  then obtain d0 d1 d2 d3 d4 d5 d6 d7 d8 d9 where
    sd: "sd = [d0, d1, d2, d3, d4, d5, d6, d7, d8, d9]"
    by (auto simp: length_Suc_conv numeral_eq_Suc)
  have m: "num \<notin> set (numbers d0)" "num \<notin> set (numbers d1)" "num \<in> set (numbers d2)"
    "num \<notin> set (numbers d3)" "num \<notin> set (numbers d4)" "num \<in> set (numbers d5)"
    "num \<notin> set (numbers d6)" "num \<notin> set (numbers d7)" "num \<notin> set (numbers d8)"
    "num \<in> set (numbers d9)"
    using member [of 0] member [of 1] member [of 2] member [of 3] member [of 4]
      member [of 5] member [of 6] member [of 7] member [of 8] member [of 9]
    by (simp_all add: sd)
  have "scan_gaps num (enumerate 0 sd) None [] = (Some 9, [3, 4])"
    unfolding sd by (simp add: m)
  then have scan: "scan_gaps num (enumerate 0 (sort_key date draws)) None [] = (Some 9, [3, 4])"
    by (simp only: sd_def)
  have entry: "gap_record_of draws num = Inr (Some [(''avg_gap'', PyFloat (7 / 2)), (''max_gap'', PyInt 4), (''current_gap'', PyInt 1)])"
    by (simp add: gap_record_of_def scan on_ok_def py_mean_def len)
  from number_gaps_loop_lookup [of draws "[1..50]" "[]"] obtain ng where
    ng: "number_gaps_loop draws [1..50] [] = Inr ng"
    and look: "\<And>n. map_of ng n =
               (if n \<in> set [1..50]
                then (case gap_record_of draws n of Inr (Some r) \<Rightarrow> Some r | _ \<Rightarrow> map_of [] n)
                else map_of [] n)"
    by blast
  have "find_patterns draws = Inr \<lparr>number_gaps = ng\<rparr>"
    by (simp add: find_patterns_def ng on_ok_def)
  moreover have "map_of ng num = Some [(''avg_gap'', PyFloat (7 / 2)), (''max_gap'', PyInt 4), (''current_gap'', PyInt 1)]"
    using pool by (simp add: look entry)
  ultimately show ?thesis by simp
qed

theorem gap_statistics_example_witness:
  "length
     [\<lparr>date = ''2024-01-16'', numbers = [4, 10, 17, 26, 32, 39, 46], year = 2024\<rparr>,
     \<lparr>date = ''2024-02-02'', numbers = [7, 11, 16, 29, 35, 40, 49], year = 2024\<rparr>,
     \<lparr>date = ''2024-01-02'', numbers = [3, 11, 18, 24, 30, 41, 49], year = 2024\<rparr>,
     \<lparr>date = ''2024-01-26'', numbers = [3, 9, 15, 24, 33, 41, 44], year = 2024\<rparr>,
     \<lparr>date = ''2024-01-09'', numbers = [7, 12, 19, 25, 33, 40, 50], year = 2024\<rparr>,
     \<lparr>date = ''2024-01-19'', numbers = [5, 7, 13, 20, 27, 34, 47], year = 2024\<rparr>,
     \<lparr>date = ''2024-01-05'', numbers = [1, 8, 15, 22, 29, 36, 43], year = 2024\<rparr>,
     \<lparr>date = ''2024-01-30'', numbers = [1, 12, 18, 22, 30, 37, 50], year = 2024\<rparr>,
     \<lparr>date = ''2024-01-12'', numbers = [2, 9, 16, 23, 31, 38, 45], year = 2024\<rparr>,
     \<lparr>date = ''2024-01-23'', numbers = [6, 14, 21, 28, 35, 42, 48], year = 2024\<rparr>] = 10
   \<and> distinct (map date
     [\<lparr>date = ''2024-01-16'', numbers = [4, 10, 17, 26, 32, 39, 46], year = 2024\<rparr>,
     \<lparr>date = ''2024-02-02'', numbers = [7, 11, 16, 29, 35, 40, 49], year = 2024\<rparr>,
     \<lparr>date = ''2024-01-02'', numbers = [3, 11, 18, 24, 30, 41, 49], year = 2024\<rparr>,
     \<lparr>date = ''2024-01-26'', numbers = [3, 9, 15, 24, 33, 41, 44], year = 2024\<rparr>,
     \<lparr>date = ''2024-01-09'', numbers = [7, 12, 19, 25, 33, 40, 50], year = 2024\<rparr>,
     \<lparr>date = ''2024-01-19'', numbers = [5, 7, 13, 20, 27, 34, 47], year = 2024\<rparr>,
     \<lparr>date = ''2024-01-05'', numbers = [1, 8, 15, 22, 29, 36, 43], year = 2024\<rparr>,
     \<lparr>date = ''2024-01-30'', numbers = [1, 12, 18, 22, 30, 37, 50], year = 2024\<rparr>,
     \<lparr>date = ''2024-01-12'', numbers = [2, 9, 16, 23, 31, 38, 45], year = 2024\<rparr>,
     \<lparr>date = ''2024-01-23'', numbers = [6, 14, 21, 28, 35, 42, 48], year = 2024\<rparr>])
   \<and> map (\<lambda>d. (7 \<in> set (numbers d),
               length (filter (\<lambda>d'. date d' < date d)
     [\<lparr>date = ''2024-01-16'', numbers = [4, 10, 17, 26, 32, 39, 46], year = 2024\<rparr>,
     \<lparr>date = ''2024-02-02'', numbers = [7, 11, 16, 29, 35, 40, 49], year = 2024\<rparr>,
     \<lparr>date = ''2024-01-02'', numbers = [3, 11, 18, 24, 30, 41, 49], year = 2024\<rparr>,
     \<lparr>date = ''2024-01-26'', numbers = [3, 9, 15, 24, 33, 41, 44], year = 2024\<rparr>,
     \<lparr>date = ''2024-01-09'', numbers = [7, 12, 19, 25, 33, 40, 50], year = 2024\<rparr>,
     \<lparr>date = ''2024-01-19'', numbers = [5, 7, 13, 20, 27, 34, 47], year = 2024\<rparr>,
     \<lparr>date = ''2024-01-05'', numbers = [1, 8, 15, 22, 29, 36, 43], year = 2024\<rparr>,
     \<lparr>date = ''2024-01-30'', numbers = [1, 12, 18, 22, 30, 37, 50], year = 2024\<rparr>,
     \<lparr>date = ''2024-01-12'', numbers = [2, 9, 16, 23, 31, 38, 45], year = 2024\<rparr>,
     \<lparr>date = ''2024-01-23'', numbers = [6, 14, 21, 28, 35, 42, 48], year = 2024\<rparr>])))
     [\<lparr>date = ''2024-01-16'', numbers = [4, 10, 17, 26, 32, 39, 46], year = 2024\<rparr>,
     \<lparr>date = ''2024-02-02'', numbers = [7, 11, 16, 29, 35, 40, 49], year = 2024\<rparr>,
     \<lparr>date = ''2024-01-02'', numbers = [3, 11, 18, 24, 30, 41, 49], year = 2024\<rparr>,
     \<lparr>date = ''2024-01-26'', numbers = [3, 9, 15, 24, 33, 41, 44], year = 2024\<rparr>,
     \<lparr>date = ''2024-01-09'', numbers = [7, 12, 19, 25, 33, 40, 50], year = 2024\<rparr>,
     \<lparr>date = ''2024-01-19'', numbers = [5, 7, 13, 20, 27, 34, 47], year = 2024\<rparr>,
     \<lparr>date = ''2024-01-05'', numbers = [1, 8, 15, 22, 29, 36, 43], year = 2024\<rparr>,
     \<lparr>date = ''2024-01-30'', numbers = [1, 12, 18, 22, 30, 37, 50], year = 2024\<rparr>,
     \<lparr>date = ''2024-01-12'', numbers = [2, 9, 16, 23, 31, 38, 45], year = 2024\<rparr>,
     \<lparr>date = ''2024-01-23'', numbers = [6, 14, 21, 28, 35, 42, 48], year = 2024\<rparr>]
     = [(False, 4), (True, 9), (False, 0), (False, 7), (True, 2), (True, 5), (False, 1), (False, 8), (False, 3), (False, 6)]
   \<and> (\<exists>p. find_patterns
     [\<lparr>date = ''2024-01-16'', numbers = [4, 10, 17, 26, 32, 39, 46], year = 2024\<rparr>,
     \<lparr>date = ''2024-02-02'', numbers = [7, 11, 16, 29, 35, 40, 49], year = 2024\<rparr>,
     \<lparr>date = ''2024-01-02'', numbers = [3, 11, 18, 24, 30, 41, 49], year = 2024\<rparr>,
     \<lparr>date = ''2024-01-26'', numbers = [3, 9, 15, 24, 33, 41, 44], year = 2024\<rparr>,
     \<lparr>date = ''2024-01-09'', numbers = [7, 12, 19, 25, 33, 40, 50], year = 2024\<rparr>,
     \<lparr>date = ''2024-01-19'', numbers = [5, 7, 13, 20, 27, 34, 47], year = 2024\<rparr>,
     \<lparr>date = ''2024-01-05'', numbers = [1, 8, 15, 22, 29, 36, 43], year = 2024\<rparr>,
     \<lparr>date = ''2024-01-30'', numbers = [1, 12, 18, 22, 30, 37, 50], year = 2024\<rparr>,
     \<lparr>date = ''2024-01-12'', numbers = [2, 9, 16, 23, 31, 38, 45], year = 2024\<rparr>,
     \<lparr>date = ''2024-01-23'', numbers = [6, 14, 21, 28, 35, 42, 48], year = 2024\<rparr>] = Inr p
        \<and> map_of (number_gaps p) 7 = Some [(''avg_gap'', PyFloat (7 / 2)), (''max_gap'', PyInt 4), (''current_gap'', PyInt 1)])"
proof -
  let ?X = "[\<lparr>date = ''2024-01-16'', numbers = [4, 10, 17, 26, 32, 39, 46], year = 2024\<rparr>,
           \<lparr>date = ''2024-02-02'', numbers = [7, 11, 16, 29, 35, 40, 49], year = 2024\<rparr>,
           \<lparr>date = ''2024-01-02'', numbers = [3, 11, 18, 24, 30, 41, 49], year = 2024\<rparr>,
           \<lparr>date = ''2024-01-26'', numbers = [3, 9, 15, 24, 33, 41, 44], year = 2024\<rparr>,
           \<lparr>date = ''2024-01-09'', numbers = [7, 12, 19, 25, 33, 40, 50], year = 2024\<rparr>,
           \<lparr>date = ''2024-01-19'', numbers = [5, 7, 13, 20, 27, 34, 47], year = 2024\<rparr>,
           \<lparr>date = ''2024-01-05'', numbers = [1, 8, 15, 22, 29, 36, 43], year = 2024\<rparr>,
           \<lparr>date = ''2024-01-30'', numbers = [1, 12, 18, 22, 30, 37, 50], year = 2024\<rparr>,
           \<lparr>date = ''2024-01-12'', numbers = [2, 9, 16, 23, 31, 38, 45], year = 2024\<rparr>,
           \<lparr>date = ''2024-01-23'', numbers = [6, 14, 21, 28, 35, 42, 48], year = 2024\<rparr>]"
  have len: "length ?X = 10"
    by simp
  have dates: "distinct (map date ?X)"
    by simp
  have col: "map (\<lambda>d. (7 \<in> set (numbers d), length (filter (\<lambda>d'. date d' < date d) ?X))) ?X
               = [(False, 4), (True, 9), (False, 0), (False, 7), (True, 2), (True, 5), (False, 1), (False, 8), (False, 3), (False, 6)]"
    by code_simp
  have seen: "\<forall>d \<in> set ?X. (7::int) \<in> set (numbers d)
                \<longleftrightarrow> length (filter (\<lambda>d'. date d' < date d) ?X) \<in> {2, 5, 9}"
    by code_simp
  have pool: "(1::int) \<le> 7" "(7::int) \<le> 50"
    by simp_all
  from gap_statistics_example [OF len dates seen pool]
  have "\<exists>p. find_patterns ?X = Inr p
          \<and> map_of (number_gaps p) 7 = Some [(''avg_gap'', PyFloat (7 / 2)), (''max_gap'', PyInt 4), (''current_gap'', PyInt 1)]"
    by blast
  with len dates col show ?thesis by (simp only: simp_thms)
qed

end
